theory Spec2Isabelle
  imports Main "HOL-Library.Word"
begin

unbundle bit_operations_syntax

section \<open>ABI structures of \<^verbatim>\<open>counter.py\<close>\<close>

text \<open>
  The module declares the kernel's counter structures as \<^verbatim>\<open>ctypes.Structure\<close> classes.
  A ctypes structure is laid out with the native rules of C: every field starts at the next
  multiple of its own alignment, and the size of the structure is rounded up to the largest
  alignment among its fields. The two scalar types the module uses are \<^verbatim>\<open>c_uint8\<close>
  (size 1, alignment 1) and \<^verbatim>\<open>c_uint64\<close> (size 8, alignment 8).
\<close>

type_synonym byte = "8 word"

datatype ctype = c_uint8 | c_uint64 | Structure "(string \<times> ctype) list"

definition round_up :: "nat \<Rightarrow> nat \<Rightarrow> nat" where
  "round_up n a = ((n + a - 1) div a) * a"

fun alignment :: "ctype \<Rightarrow> nat" where
  "alignment c_uint8 = 1"
| "alignment c_uint64 = 8"
| "alignment (Structure fields) = foldl (\<lambda>a f. max a (alignment (snd f))) 1 fields"

fun sizeof :: "ctype \<Rightarrow> nat" where
  "sizeof c_uint8 = 1"
| "sizeof c_uint64 = 8"
| "sizeof (Structure fields) =
     round_up (foldl (\<lambda>off f. round_up off (alignment (snd f)) + sizeof (snd f)) 0 fields)
       (alignment (Structure fields))"

text \<open>The sum of the declared field sizes, without any padding.\<close>

definition fields_total :: "(string \<times> ctype) list \<Rightarrow> nat" where
  "fields_total fields = sum_list (map (\<lambda>f. sizeof (snd f)) fields)"

text \<open>Offset and type of a named field, counting from offset \<open>off\<close>.\<close>

fun field_at :: "nat \<Rightarrow> (string \<times> ctype) list \<Rightarrow> string \<Rightarrow> (nat \<times> ctype) option" where
  "field_at off [] name = None"
| "field_at off (f # fields) name =
     (let start = round_up off (alignment (snd f))
      in if fst f = name then Some (start, snd f)
         else field_at (start + sizeof (snd f)) fields name)"

definition offsetof :: "(string \<times> ctype) list \<Rightarrow> string \<Rightarrow> nat option" where
  "offsetof fields name = map_option fst (field_at 0 fields name)"

text \<open>Reading and writing the bytes of one field inside the buffer of a structure.\<close>

definition get_field :: "(string \<times> ctype) list \<Rightarrow> string \<Rightarrow> byte list \<Rightarrow> byte list" where
  "get_field fields name buf =
     (case field_at 0 fields name of
        None \<Rightarrow> []
      | Some (start, t) \<Rightarrow> take (sizeof t) (drop start buf))"

definition set_field :: "(string \<times> ctype) list \<Rightarrow> string \<Rightarrow> byte list \<Rightarrow> byte list \<Rightarrow> byte list" where
  "set_field fields name v buf =
     (case field_at 0 fields name of
        None \<Rightarrow> buf
      | Some (start, t) \<Rightarrow> take start buf @ take (sizeof t) v @ drop (start + sizeof t) buf)"

definition u8_of :: "byte list \<Rightarrow> byte" where
  "u8_of bs = (case bs of [] \<Rightarrow> 0 | b # _ \<Rightarrow> b)"

text \<open>A \<^verbatim>\<open>c_uint64\<close> in the byte order of the targets of the driver (little endian).\<close>

definition u64_of :: "byte list \<Rightarrow> 64 word" where
  "u64_of bs = foldr (\<lambda>b acc. ucast b OR push_bit 8 acc) bs 0"

subsection \<open>CounterComponent\<close>

definition CounterComponent_fields :: "(string \<times> ctype) list" where
  "CounterComponent_fields =
     [(''type'', c_uint8), (''scope'', c_uint8), (''parent'', c_uint8), (''id'', c_uint8)]"

record CounterComponent =
  comp_type :: byte
  comp_scope :: byte
  comp_parent :: byte
  comp_id :: byte

definition encode_CounterComponent :: "CounterComponent \<Rightarrow> byte list" where
  "encode_CounterComponent c =
     set_field CounterComponent_fields ''id'' [comp_id c]
       (set_field CounterComponent_fields ''parent'' [comp_parent c]
         (set_field CounterComponent_fields ''scope'' [comp_scope c]
           (set_field CounterComponent_fields ''type'' [comp_type c]
             (replicate (sizeof (Structure CounterComponent_fields)) 0))))"

definition decode_CounterComponent :: "byte list \<Rightarrow> CounterComponent" where
  "decode_CounterComponent buf =
     \<lparr>comp_type = u8_of (get_field CounterComponent_fields ''type'' buf),
      comp_scope = u8_of (get_field CounterComponent_fields ''scope'' buf),
      comp_parent = u8_of (get_field CounterComponent_fields ''parent'' buf),
      comp_id = u8_of (get_field CounterComponent_fields ''id'' buf)\<rparr>"

subsection \<open>CounterWatch\<close>

definition CounterWatch_fields :: "(string \<times> ctype) list" where
  "CounterWatch_fields =
     [(''component'', Structure CounterComponent_fields),
      (''event'', c_uint8), (''channel'', c_uint8)]"

record CounterWatch =
  watch_component :: CounterComponent
  watch_event :: byte
  watch_channel :: byte

definition encode_CounterWatch :: "CounterWatch \<Rightarrow> byte list" where
  "encode_CounterWatch w =
     set_field CounterWatch_fields ''channel'' [watch_channel w]
       (set_field CounterWatch_fields ''event'' [watch_event w]
         (set_field CounterWatch_fields ''component'' (encode_CounterComponent (watch_component w))
           (replicate (sizeof (Structure CounterWatch_fields)) 0)))"

definition decode_CounterWatch :: "byte list \<Rightarrow> CounterWatch" where
  "decode_CounterWatch buf =
     \<lparr>watch_component = decode_CounterComponent (get_field CounterWatch_fields ''component'' buf),
      watch_event = u8_of (get_field CounterWatch_fields ''event'' buf),
      watch_channel = u8_of (get_field CounterWatch_fields ''channel'' buf)\<rparr>"

subsection \<open>CounterEvent\<close>

definition CounterEvent_fields :: "(string \<times> ctype) list" where
  "CounterEvent_fields =
     [(''timestamp'', c_uint64), (''value'', c_uint64),
      (''watch'', Structure CounterWatch_fields), (''status'', c_uint8)]"

record CounterEvent =
  event_timestamp :: "64 word"
  event_value :: "64 word"
  event_watch :: CounterWatch
  event_status :: byte

definition decode_CounterEvent :: "byte list \<Rightarrow> CounterEvent" where
  "decode_CounterEvent buf =
     \<lparr>event_timestamp = u64_of (get_field CounterEvent_fields ''timestamp'' buf),
      event_value = u64_of (get_field CounterEvent_fields ''value'' buf),
      event_watch = decode_CounterWatch (get_field CounterEvent_fields ''watch'' buf),
      event_status = u8_of (get_field CounterEvent_fields ''status'' buf)\<rparr>"

subsection \<open>from\_buffer\_copy\<close>

text \<open>
  Errors are values: \<open>OSError\<close> with the errno of a failed system call, and the
  \<open>ValueError\<close> that ctypes and file objects raise.
\<close>

datatype error = OSError nat | ValueError

text \<open>
  \<^verbatim>\<open>T.from_buffer_copy(source)\<close> raises \<^verbatim>\<open>ValueError\<close> when the source holds fewer
  bytes than \<^verbatim>\<open>sizeof(T)\<close>; otherwise it builds the instance from the first
  \<^verbatim>\<open>sizeof(T)\<close> bytes.
\<close>

definition from_buffer_copy ::
  "(string \<times> ctype) list \<Rightarrow> (byte list \<Rightarrow> 'a) \<Rightarrow> byte list \<Rightarrow> error + 'a" where
  "from_buffer_copy fields' decode source =
     (if length source < sizeof (Structure fields') then Inl ValueError
      else Inr (decode (take (sizeof (Structure fields')) source)))"

definition CounterWatch_from_buffer_copy :: "byte list \<Rightarrow> error + CounterWatch" where
  "CounterWatch_from_buffer_copy = from_buffer_copy CounterWatch_fields decode_CounterWatch"

definition CounterEvent_from_buffer_copy :: "byte list \<Rightarrow> error + CounterEvent" where
  "CounterEvent_from_buffer_copy = from_buffer_copy CounterEvent_fields decode_CounterEvent"

section \<open>Ioctl request codes\<close>

text \<open>
  Python integers are unbounded, so the fields and the code are of type \<open>int\<close>;
  \<^verbatim>\<open><<\<close> is \<open>push_bit\<close> and \<^verbatim>\<open>|\<close> is \<open>OR\<close>. The leading underscore of the
  source's names is dropped.
\<close>

definition IOC_NRBITS :: nat where "IOC_NRBITS = 8"
definition IOC_TYPEBITS :: nat where "IOC_TYPEBITS = 8"
definition IOC_SIZEBITS :: nat where "IOC_SIZEBITS = 14"
definition IOC_DIRBITS :: nat where "IOC_DIRBITS = 2"
definition IOC_NONE :: int where "IOC_NONE = 0"
definition IOC_WRITE :: int where "IOC_WRITE = 1"
definition IOC_READ :: int where "IOC_READ = 2"

definition IOC :: "int \<Rightarrow> int \<Rightarrow> int \<Rightarrow> int \<Rightarrow> int" where
  "IOC direction request_type request_nr size' =
     (let IOC_NRSHIFT = 0;
          IOC_TYPESHIFT = IOC_NRSHIFT + IOC_NRBITS;
          IOC_SIZESHIFT = IOC_TYPESHIFT + IOC_TYPEBITS;
          IOC_DIRSHIFT = IOC_SIZESHIFT + IOC_SIZEBITS
      in push_bit IOC_DIRSHIFT direction
         OR push_bit IOC_TYPESHIFT request_type
         OR push_bit IOC_NRSHIFT request_nr
         OR push_bit IOC_SIZESHIFT size')"

definition COUNTER_ADD_WATCH_IOCTL :: int where
  "COUNTER_ADD_WATCH_IOCTL = IOC IOC_WRITE 0x3E 0x00 (int (sizeof (Structure CounterWatch_fields)))"

definition COUNTER_ENABLE_EVENTS_IOCTL :: int where
  "COUNTER_ENABLE_EVENTS_IOCTL = IOC IOC_NONE 0x3E 0x01 0"

definition COUNTER_DISABLE_EVENTS_IOCTL :: int where
  "COUNTER_DISABLE_EVENTS_IOCTL = IOC IOC_NONE 0x3E 0x02 0"

section \<open>The device session\<close>

subsection \<open>The character device, as the module sees it\<close>

text \<open>
  The world a session runs in: whether the file object \<^verbatim>\<open>f\<close> is open and non-blocking,
  whether the kernel has event delivery enabled, the bytes the kernel holds ready for the
  descriptor (\<open>rx\<close>), whether the stream has ended, the bytes the file object has read
  ahead into its buffer and not yet handed out (\<open>readahead\<close>), and the requests made so
  far (oldest first).
\<close>

datatype ioctl_arg = Int_arg int | Buffer_arg "byte list"

datatype syscall =
    Sys_open
  | Sys_fcntl_nonblock
  | Sys_ioctl int ioctl_arg
  | Sys_read nat
  | Sys_close

record world =
  fd_open :: bool
  nonblocking :: bool
  events_enabled :: bool
  rx :: "byte list"
  eof :: bool
  readahead :: "byte list"
  trace :: "syscall list"

text \<open>
  What the kernel answers is a parameter: for each request, the errno it fails with, or
  \<open>None\<close> when it succeeds. The answer to an ioctl may depend on the state and on the
  request (an invalid component, a duplicate watch); the answer to a read on the state and
  on the length asked for. \<open>buffer_size\<close> is the size of the buffer that \<^verbatim>\<open>open\<close> gives
  the file object.
\<close>

record device =
  open_result :: "nat option"
  fcntl_result :: "nat option"
  ioctl_result :: "world \<Rightarrow> int \<Rightarrow> ioctl_arg \<Rightarrow> nat option"
  read_result :: "world \<Rightarrow> nat \<Rightarrow> nat option"
  close_result :: "nat option"
  buffer_size :: nat

definition log :: "syscall \<Rightarrow> world \<Rightarrow> world" where
  "log c w = w\<lparr>trace := trace w @ [c]\<rparr>"

text \<open>
  \<^verbatim>\<open>open(self._dev, "rb")\<close>: a new buffered file object in blocking mode, its buffer
  empty, or \<^verbatim>\<open>OSError\<close>.
\<close>

definition file_open :: "device \<Rightarrow> world \<Rightarrow> (error + unit) \<times> world" where
  "file_open dev w =
     (case open_result dev of
        Some e \<Rightarrow> (Inl (OSError e), log Sys_open w)
      | None \<Rightarrow>
          (Inr (), (log Sys_open w)\<lparr>fd_open := True, nonblocking := False, readahead := []\<rparr>))"

text \<open>\<^verbatim>\<open>fcntl(f, F_SETFL, O_NONBLOCK)\<close>. A closed file object has no descriptor:
  \<^verbatim>\<open>ValueError\<close>.\<close>

definition fcntl_setfl_nonblock :: "device \<Rightarrow> world \<Rightarrow> (error + unit) \<times> world" where
  "fcntl_setfl_nonblock dev w =
     (if \<not> fd_open w then (Inl ValueError, w)
      else case fcntl_result dev of
          Some e \<Rightarrow> (Inl (OSError e), log Sys_fcntl_nonblock w)
        | None \<Rightarrow> (Inr (), (log Sys_fcntl_nonblock w)\<lparr>nonblocking := True\<rparr>))"

text \<open>
  The effect of an accepted request on the kernel side: enable-events starts delivery,
  disable-events stops it. A rejected request changes nothing.
\<close>

definition kernel_effect :: "int \<Rightarrow> world \<Rightarrow> world" where
  "kernel_effect code w =
     (if code = COUNTER_ENABLE_EVENTS_IOCTL then w\<lparr>events_enabled := True\<rparr>
      else if code = COUNTER_DISABLE_EVENTS_IOCTL then w\<lparr>events_enabled := False\<rparr>
      else w)"

definition ioctl :: "device \<Rightarrow> int \<Rightarrow> ioctl_arg \<Rightarrow> world \<Rightarrow> (error + unit) \<times> world" where
  "ioctl dev code arg w =
     (if \<not> fd_open w then (Inl ValueError, w)
      else case ioctl_result dev w code arg of
          Some e \<Rightarrow> (Inl (OSError e), log (Sys_ioctl code arg) w)
        | None \<Rightarrow> (Inr (), kernel_effect code (log (Sys_ioctl code arg) w)))"

text \<open>
  \<^verbatim>\<open>f.close()\<close>: nothing on a closed file object; otherwise the descriptor is released
  whatever \<^verbatim>\<open>close(2)\<close> answers.
\<close>

definition file_close :: "device \<Rightarrow> world \<Rightarrow> (error + unit) \<times> world" where
  "file_close dev w =
     (if \<not> fd_open w then (Inr (), w)
      else case close_result dev of
          Some e \<Rightarrow> (Inl (OSError e), (log Sys_close w)\<lparr>fd_open := False\<rparr>)
        | None \<Rightarrow> (Inr (), (log Sys_close w)\<lparr>fd_open := False\<rparr>))"

text \<open>
  One \<^verbatim>\<open>read(2)\<close> of at most \<open>k\<close> bytes on the descriptor, as the raw file object
  under the buffer makes it. The outer \<open>option\<close> is \<open>None\<close> when the call does not
  return: a blocking descriptor with nothing to read. With nothing to read, a non-blocking
  descriptor gives Python's \<^verbatim>\<open>None\<close> (the inner \<open>option\<close>), and a stream that has ended
  gives the empty byte string. Otherwise the call takes the bytes at hand, at most \<open>k\<close>.
\<close>

definition raw_read :: "device \<Rightarrow> nat \<Rightarrow> world \<Rightarrow> ((error + byte list option) \<times> world) option" where
  "raw_read dev k w =
     (case read_result dev w k of
        Some e \<Rightarrow> Some (Inl (OSError e), log (Sys_read k) w)
      | None \<Rightarrow>
          if rx w = [] \<and> eof w then Some (Inr (Some []), log (Sys_read k) w)
          else if rx w = [] \<and> nonblocking w then Some (Inr None, log (Sys_read k) w)
          else if rx w = [] then None
          else Some (Inr (Some (take k (rx w))), (log (Sys_read k) w)\<lparr>rx := drop k (rx w)\<rparr>))"

text \<open>
  \<^verbatim>\<open>f.read(n)\<close> on the buffered file object that \<^verbatim>\<open>open\<close> returns. When the buffer
  holds \<open>n\<close> bytes they are handed out and nothing is read. Otherwise the buffered bytes
  go to the result \<open>out\<close> and the rest is read: whole multiples of the buffer size
  straight into the result, then the remainder through the buffer, which each time asks
  for all the room it has left, so that what the kernel returns beyond the bytes still
  wanted stays in the buffer. A read that would block, or the end of the stream, ends the
  call with what has been gathered (Python's \<^verbatim>\<open>None\<close> when a read would block and
  nothing was gathered); a failing read raises, and what was gathered is lost.
\<close>

function fill_loop ::
  "device \<Rightarrow> nat \<Rightarrow> nat \<Rightarrow> byte list \<Rightarrow> world \<Rightarrow> ((error + byte list option) \<times> world) option" where
  "fill_loop dev remaining read_end out w =
     (if remaining > 0 \<and> read_end < buffer_size dev then
        (case raw_read dev (buffer_size dev - read_end) w of
           None \<Rightarrow> None
         | Some (Inl e, w') \<Rightarrow> Some (Inl e, w')
         | Some (Inr None, w') \<Rightarrow> Some (Inr (if out \<noteq> [] then Some out else None), w')
         | Some (Inr (Some data), w') \<Rightarrow>
             if data = [] then Some (Inr (Some out), w')
             else if remaining > length data then
               fill_loop dev (remaining - length data) (read_end + length data) (out @ data) w'
             else Some (Inr (Some (out @ take remaining data)),
                        w'\<lparr>readahead := drop remaining data\<rparr>))
      else Some (Inr (Some out), w))"
  by pat_completeness auto
termination
  by (relation "measure (\<lambda>(dev, remaining, read_end, out, w). remaining)") auto

function read_direct ::
  "device \<Rightarrow> nat \<Rightarrow> byte list \<Rightarrow> world \<Rightarrow> ((error + byte list option) \<times> world) option" where
  "read_direct dev remaining out w =
     (let r = (remaining div buffer_size dev) * buffer_size dev
      in if remaining > 0 \<and> r \<noteq> 0 then
           (case raw_read dev r w of
              None \<Rightarrow> None
            | Some (Inl e, w') \<Rightarrow> Some (Inl e, w')
            | Some (Inr None, w') \<Rightarrow> Some (Inr (if out \<noteq> [] then Some out else None), w')
            | Some (Inr (Some data), w') \<Rightarrow>
                if data = [] then Some (Inr (Some out), w')
                else read_direct dev (remaining - length data) (out @ data) w')
         else fill_loop dev remaining 0 out w)"
  by pat_completeness auto
termination
  by (relation "measure (\<lambda>(dev, remaining, out, w). remaining)") auto

declare fill_loop.simps [simp del] read_direct.simps [simp del]

definition file_read :: "device \<Rightarrow> nat \<Rightarrow> world \<Rightarrow> ((error + byte list option) \<times> world) option" where
  "file_read dev n w =
     (if \<not> fd_open w then Some (Inl ValueError, w)
      else if n \<le> length (readahead w) then
        Some (Inr (Some (take n (readahead w))), w\<lparr>readahead := drop n (readahead w)\<rparr>)
      else read_direct dev (n - length (readahead w)) (readahead w) (w\<lparr>readahead := []\<rparr>))"

subsection \<open>contextlib.ExitStack\<close>

text \<open>
  The stack holds the exit callbacks, the most recently registered first. The module
  registers two kinds: the \<^verbatim>\<open>__exit__\<close> of the file object (by \<^verbatim>\<open>enter_context\<close>), which
  closes it, and \<^verbatim>\<open>ioctl(f, code)\<close> (by \<^verbatim>\<open>callback\<close>). Neither suppresses an exception.
\<close>

datatype exit_callback = File_exit | Callback_ioctl int

type_synonym ExitStack = "exit_callback list"

definition run_exit_callback :: "device \<Rightarrow> exit_callback \<Rightarrow> world \<Rightarrow> (error + unit) \<times> world" where
  "run_exit_callback dev cb w =
     (case cb of
        File_exit \<Rightarrow> file_close dev w
      | Callback_ioctl code \<Rightarrow> ioctl dev code (Int_arg 0) w)"

text \<open>
  \<^verbatim>\<open>ExitStack.__exit__\<close> pops and runs every callback, last registered first, also after
  one of them has raised. The result is the exception to raise afterwards: the last one a
  callback raised, if any.
\<close>

fun ExitStack_exit :: "device \<Rightarrow> ExitStack \<Rightarrow> world \<Rightarrow> error option \<times> world" where
  "ExitStack_exit dev [] w = (None, w)"
| "ExitStack_exit dev (cb # cbs) w =
     (case run_exit_callback dev cb w of
        (r, w') \<Rightarrow>
          (case ExitStack_exit dev cbs w' of
             (Some e, w'') \<Rightarrow> (Some e, w'')
           | (None, w'') \<Rightarrow> (case r of Inl e \<Rightarrow> (Some e, w'') | Inr _ \<Rightarrow> (None, w''))))"

text \<open>
  Leaving the \<^verbatim>\<open>with\<close> block by the exception \<open>exc\<close>: the callbacks run, and the
  exception that propagates is the one \<^verbatim>\<open>__exit__\<close> raises, or \<open>exc\<close> itself.
\<close>

definition with_exit_raising :: "device \<Rightarrow> error \<Rightarrow> ExitStack \<Rightarrow> world \<Rightarrow> error \<times> world" where
  "with_exit_raising dev exc stack w =
     (case ExitStack_exit dev stack w of
        (Some e, w') \<Rightarrow> (e, w')
      | (None, w') \<Rightarrow> (exc, w'))"

text \<open>
  \<^verbatim>\<open>ExitStack.close()\<close>, the unsubscribe function that \<^verbatim>\<open>subscribe_events\<close> returns. The
  stack is a mutable object: the call leaves it empty.
\<close>

definition ExitStack_close :: "device \<Rightarrow> ExitStack \<Rightarrow> world \<Rightarrow> (error + unit) \<times> ExitStack \<times> world" where
  "ExitStack_close dev stack w =
     (case ExitStack_exit dev stack w of
        (Some e, w') \<Rightarrow> (Inl e, [], w')
      | (None, w') \<Rightarrow> (Inr (), [], w'))"

subsection \<open>subscribe\_events\<close>

text \<open>The loop over the watches stops at the first request that raises.\<close>

fun add_watches :: "device \<Rightarrow> CounterWatch list \<Rightarrow> world \<Rightarrow> (error + unit) \<times> world" where
  "add_watches dev [] w = (Inr (), w)"
| "add_watches dev (watch # watches) w =
     (case ioctl dev COUNTER_ADD_WATCH_IOCTL (Buffer_arg (encode_CounterWatch watch)) w of
        (Inl e, w') \<Rightarrow> (Inl e, w')
      | (Inr _, w') \<Rightarrow> add_watches dev watches w')"

text \<open>
  The result is the stack that \<^verbatim>\<open>pop_all()\<close> returns, whose \<^verbatim>\<open>close\<close> is the
  unsubscribe function; \<^verbatim>\<open>read_event\<close> below is the second function of the pair. When
  \<^verbatim>\<open>open\<close> raises, nothing has been registered on the stack yet.
\<close>

definition subscribe_events :: "device \<Rightarrow> CounterWatch list \<Rightarrow> world \<Rightarrow> (error + ExitStack) \<times> world" where
  "subscribe_events dev watches w =
     (case file_open dev w of
        (Inl e, w0) \<Rightarrow> (Inl e, w0)
      | (Inr _, w0) \<Rightarrow>
          (let stack = [File_exit] in
           case fcntl_setfl_nonblock dev w0 of
             (Inl e, w1) \<Rightarrow> apfst Inl (with_exit_raising dev e stack w1)
           | (Inr _, w1) \<Rightarrow>
               (case add_watches dev watches w1 of
                  (Inl e, w2) \<Rightarrow> apfst Inl (with_exit_raising dev e stack w2)
                | (Inr _, w2) \<Rightarrow>
                    (case ioctl dev COUNTER_ENABLE_EVENTS_IOCTL (Int_arg 0) w2 of
                       (Inl e, w3) \<Rightarrow> apfst Inl (with_exit_raising dev e stack w3)
                     | (Inr _, w3) \<Rightarrow>
                         (Inr (Callback_ioctl COUNTER_DISABLE_EVENTS_IOCTL # stack), w3)))))"

definition read_event :: "device \<Rightarrow> world \<Rightarrow> ((error + CounterEvent option) \<times> world) option" where
  "read_event dev w =
     (case file_read dev (sizeof (Structure CounterEvent_fields)) w of
        None \<Rightarrow> None
      | Some (Inl e, w') \<Rightarrow> Some (Inl e, w')
      | Some (Inr data, w') \<Rightarrow>
          (case data of
             None \<Rightarrow> Some (Inr None, w')
           | Some bytes \<Rightarrow>
               (case CounterEvent_from_buffer_copy bytes of
                  Inl e \<Rightarrow> Some (Inl e, w')
                | Inr event \<Rightarrow> Some (Inr (Some event), w'))))"

section \<open>Scenarios\<close>

text \<open>
  The example script subscribes to two watches, built with only the event given, so that
  every other field is zero. \<open>OVERFLOW\<close> and \<open>UNDERFLOW\<close> are the first two members of
  \<^verbatim>\<open>CounterEventType\<close>.
\<close>

definition OVERFLOW :: int where "OVERFLOW = 0"
definition UNDERFLOW :: int where "UNDERFLOW = 1"

definition overflow :: CounterWatch where
  "overflow = \<lparr>watch_component = \<lparr>comp_type = 0, comp_scope = 0, comp_parent = 0, comp_id = 0\<rparr>,
     watch_event = word_of_int OVERFLOW, watch_channel = 0\<rparr>"

definition underflow :: CounterWatch where
  "underflow = \<lparr>watch_component = \<lparr>comp_type = 0, comp_scope = 0, comp_parent = 0, comp_id = 0\<rparr>,
     watch_event = word_of_int UNDERFLOW, watch_channel = 0\<rparr>"

text \<open>
  The state before anything is opened, and kernels that differ in what they reject: none
  of the requests; the underflow watch, with \<^verbatim>\<open>EINVAL\<close>; the disable-events request,
  with \<^verbatim>\<open>EIO\<close>; and the last two again with a \<^verbatim>\<open>close\<close> that fails with \<^verbatim>\<open>EBADF\<close>
  as well. The buffer of the file object has 4096 bytes.
\<close>

definition world0 :: world where
  "world0 = \<lparr>fd_open = False, nonblocking = False, events_enabled = False, rx = [],
     eof = False, readahead = [], trace = []\<rparr>"

definition accepting :: device where
  "accepting = \<lparr>open_result = None, fcntl_result = None,
     ioctl_result = (\<lambda>w code arg. None), read_result = (\<lambda>w k. None),
     close_result = None, buffer_size = 4096\<rparr>"

definition rejecting_underflow :: device where
  "rejecting_underflow = \<lparr>open_result = None, fcntl_result = None,
     ioctl_result = (\<lambda>w code arg.
        if code = COUNTER_ADD_WATCH_IOCTL \<and> arg = Buffer_arg (encode_CounterWatch underflow)
        then Some 22 else None),
     read_result = (\<lambda>w k. None), close_result = None, buffer_size = 4096\<rparr>"

definition failing_disable :: device where
  "failing_disable = \<lparr>open_result = None, fcntl_result = None,
     ioctl_result = (\<lambda>w code arg. if code = COUNTER_DISABLE_EVENTS_IOCTL then Some 5 else None),
     read_result = (\<lambda>w k. None), close_result = None, buffer_size = 4096\<rparr>"

definition rejecting_underflow_failing_close :: device where
  "rejecting_underflow_failing_close = \<lparr>open_result = None, fcntl_result = None,
     ioctl_result = (\<lambda>w code arg.
        if code = COUNTER_ADD_WATCH_IOCTL \<and> arg = Buffer_arg (encode_CounterWatch underflow)
        then Some 22 else None),
     read_result = (\<lambda>w k. None), close_result = Some 9, buffer_size = 4096\<rparr>"

definition failing_disable_failing_close :: device where
  "failing_disable_failing_close = \<lparr>open_result = None, fcntl_result = None,
     ioctl_result = (\<lambda>w code arg. if code = COUNTER_DISABLE_EVENTS_IOCTL then Some 5 else None),
     read_result = (\<lambda>w k. None), close_result = Some 9, buffer_size = 4096\<rparr>"

text \<open>
  The state after the example's subscription has succeeded, and the bytes of one event
  record as the kernel writes it: timestamp 258, value 359, the overflow watch, status 0,
  and the padding byte.
\<close>

definition subscribed :: world where
  "subscribed = \<lparr>fd_open = True, nonblocking = True, events_enabled = True, rx = [], eof = False,
     readahead = [],
     trace = [Sys_open, Sys_fcntl_nonblock,
       Sys_ioctl COUNTER_ADD_WATCH_IOCTL (Buffer_arg (encode_CounterWatch overflow)),
       Sys_ioctl COUNTER_ADD_WATCH_IOCTL (Buffer_arg (encode_CounterWatch underflow)),
       Sys_ioctl COUNTER_ENABLE_EVENTS_IOCTL (Int_arg 0)]\<rparr>"


definition overflow_event_bytes :: "byte list" where
  "overflow_event_bytes =
     [0x02, 0x01, 0, 0, 0, 0, 0, 0,  0x67, 0x01, 0, 0, 0, 0, 0, 0,  0, 0, 0, 0, 0, 0,  0,  0]"

text \<open>The same session with two event records waiting in the kernel: 48 bytes.\<close>

definition two_events :: world where
  "two_events = \<lparr>fd_open = True, nonblocking = True, events_enabled = True,
     rx = overflow_event_bytes @ overflow_event_bytes, eof = False, readahead = [],
     trace = [Sys_open, Sys_fcntl_nonblock,
       Sys_ioctl COUNTER_ADD_WATCH_IOCTL (Buffer_arg (encode_CounterWatch overflow)),
       Sys_ioctl COUNTER_ADD_WATCH_IOCTL (Buffer_arg (encode_CounterWatch underflow)),
       Sys_ioctl COUNTER_ENABLE_EVENTS_IOCTL (Int_arg 0)]\<rparr>"

text \<open>
  The record those bytes decode to, and the state after one \<^verbatim>\<open>read_event\<close> on the
  session with two records waiting: the single read has emptied the kernel's queue and the
  second record sits in the buffer of the file object.
\<close>

definition overflow_event :: CounterEvent where
  "overflow_event = \<lparr>event_timestamp = 258, event_value = 359, event_watch = overflow,
     event_status = 0\<rparr>"

definition after_first_read :: world where
  "after_first_read = \<lparr>fd_open = True, nonblocking = True, events_enabled = True,
     rx = [], eof = False, readahead = overflow_event_bytes,
     trace = [Sys_open, Sys_fcntl_nonblock,
       Sys_ioctl COUNTER_ADD_WATCH_IOCTL (Buffer_arg (encode_CounterWatch overflow)),
       Sys_ioctl COUNTER_ADD_WATCH_IOCTL (Buffer_arg (encode_CounterWatch underflow)),
       Sys_ioctl COUNTER_ENABLE_EVENTS_IOCTL (Int_arg 0),
       Sys_read 4096]\<rparr>"

section \<open>Layout facts\<close>

lemma sizeof_CounterComponent: "sizeof (Structure CounterComponent_fields) = 4"
  by (simp add: CounterComponent_fields_def round_up_def)

lemma alignment_CounterComponent: "alignment (Structure CounterComponent_fields) = 1"
  by (simp add: CounterComponent_fields_def)

lemma sizeof_CounterWatch: "sizeof (Structure CounterWatch_fields) = 6"
  by (simp add: CounterWatch_fields_def CounterComponent_fields_def round_up_def)

lemma alignment_CounterWatch: "alignment (Structure CounterWatch_fields) = 1"
  by (simp add: CounterWatch_fields_def CounterComponent_fields_def)

lemma sizeof_CounterEvent: "sizeof (Structure CounterEvent_fields) = 24"
  by (simp add: CounterEvent_fields_def CounterWatch_fields_def CounterComponent_fields_def
      round_up_def)

lemma alignment_CounterEvent: "alignment (Structure CounterEvent_fields) = 8"
  by (simp add: CounterEvent_fields_def CounterWatch_fields_def CounterComponent_fields_def)

lemma fields_total_CounterComponent: "fields_total CounterComponent_fields = 4"
  by (simp add: fields_total_def CounterComponent_fields_def)

lemma fields_total_CounterWatch: "fields_total CounterWatch_fields = 6"
  by (simp add: fields_total_def CounterWatch_fields_def sizeof_CounterComponent
      del: sizeof.simps(3))

lemma fields_total_CounterEvent: "fields_total CounterEvent_fields = 23"
  by (simp add: fields_total_def CounterEvent_fields_def sizeof_CounterWatch
      del: sizeof.simps(3))

lemma offsets_CounterEvent:
  "map (offsetof CounterEvent_fields) [''timestamp'', ''value'', ''watch'', ''status''] =
     [Some 0, Some 8, Some 16, Some 22]"
  by (simp add: offsetof_def CounterEvent_fields_def sizeof_CounterWatch alignment_CounterWatch
      round_up_def del: sizeof.simps(3) alignment.simps(3))

lemma field_at_CounterComponent:
  "field_at 0 CounterComponent_fields ''type'' = Some (0, c_uint8)"
  "field_at 0 CounterComponent_fields ''scope'' = Some (1, c_uint8)"
  "field_at 0 CounterComponent_fields ''parent'' = Some (2, c_uint8)"
  "field_at 0 CounterComponent_fields ''id'' = Some (3, c_uint8)"
  by (simp_all add: CounterComponent_fields_def round_up_def)

lemma field_at_CounterWatch:
  "field_at 0 CounterWatch_fields ''component'' = Some (0, Structure CounterComponent_fields)"
  "field_at 0 CounterWatch_fields ''event'' = Some (4, c_uint8)"
  "field_at 0 CounterWatch_fields ''channel'' = Some (5, c_uint8)"
  by (simp_all add: CounterWatch_fields_def round_up_def sizeof_CounterComponent
      alignment_CounterComponent del: sizeof.simps(3) alignment.simps(3))

lemma encode_CounterComponent_bytes:
  "encode_CounterComponent c = [comp_type c, comp_scope c, comp_parent c, comp_id c]"
  by (simp add: encode_CounterComponent_def set_field_def field_at_CounterComponent
      sizeof_CounterComponent numeral_eq_Suc del: sizeof.simps(3))

lemma encode_CounterWatch_bytes:
  "encode_CounterWatch w =
     [comp_type (watch_component w), comp_scope (watch_component w),
      comp_parent (watch_component w), comp_id (watch_component w),
      watch_event w, watch_channel w]"
  by (simp add: encode_CounterWatch_def set_field_def field_at_CounterWatch
      sizeof_CounterWatch sizeof_CounterComponent encode_CounterComponent_bytes numeral_eq_Suc
      del: sizeof.simps(3))

lemma decode_CounterComponent_bytes:
  "decode_CounterComponent [a, b, c, d] =
     \<lparr>comp_type = a, comp_scope = b, comp_parent = c, comp_id = d\<rparr>"
  by (simp add: decode_CounterComponent_def get_field_def field_at_CounterComponent u8_of_def)

lemma decode_CounterWatch_bytes:
  "decode_CounterWatch [a, b, c, d, e, f] =
     \<lparr>watch_component = \<lparr>comp_type = a, comp_scope = b, comp_parent = c, comp_id = d\<rparr>,
      watch_event = e, watch_channel = f\<rparr>"
  by (simp add: decode_CounterWatch_def get_field_def field_at_CounterWatch u8_of_def
      sizeof_CounterComponent decode_CounterComponent_bytes numeral_eq_Suc del: sizeof.simps(3))

lemma field_at_CounterEvent:
  "field_at 0 CounterEvent_fields ''timestamp'' = Some (0, c_uint64)"
  "field_at 0 CounterEvent_fields ''value'' = Some (8, c_uint64)"
  "field_at 0 CounterEvent_fields ''watch'' = Some (16, Structure CounterWatch_fields)"
  "field_at 0 CounterEvent_fields ''status'' = Some (22, c_uint8)"
  by (simp_all add: CounterEvent_fields_def round_up_def sizeof_CounterWatch
      alignment_CounterWatch del: sizeof.simps(3) alignment.simps(3))

lemma decode_overflow_event:
  "decode_CounterEvent overflow_event_bytes =
     \<lparr>event_timestamp = 258, event_value = 359, event_watch = overflow, event_status = 0\<rparr>"
  by (simp add: decode_CounterEvent_def get_field_def overflow_event_bytes_def
      field_at_CounterEvent sizeof_CounterWatch decode_CounterWatch_bytes u8_of_def u64_of_def
      overflow_def OVERFLOW_def del: sizeof.simps(3))

section \<open>Facts about the request codes\<close>

lemmas IOC_consts = IOC_NRBITS_def IOC_TYPEBITS_def IOC_SIZEBITS_def IOC_DIRBITS_def

lemma IOC_packed:
  "IOC d t n s = n OR push_bit 8 t OR push_bit 16 s OR push_bit 30 d"
  by (simp add: IOC_def IOC_consts Let_def ac_simps)

lemma bit_below_width:
  fixes x :: int
  assumes "0 \<le> x" "x < 2 ^ k" "bit x m"
  shows "m < k"
proof -
  have "take_bit k x = x" using assms by (simp add: take_bit_int_eq_self)
  then have "bit x m = bit (take_bit k x) m" by simp
  also have "\<dots> = (m < k \<and> bit x m)" by (simp add: bit_take_bit_iff)
  finally show ?thesis using assms by simp
qed

lemma IOC_nr:
  assumes "0 \<le> n" "n < 2 ^ 8"
  shows "take_bit 8 (IOC d t n s) = n"
  by (rule bit_eqI)
    (auto simp: IOC_packed bit_simps dest: bit_below_width [OF assms])

lemma IOC_type:
  assumes "0 \<le> n" "n < 2 ^ 8" "0 \<le> t" "t < 2 ^ 8"
  shows "take_bit 8 (drop_bit 8 (IOC d t n s)) = t"
  by (rule bit_eqI)
    (auto simp: IOC_packed bit_simps
      dest: bit_below_width [OF assms(1,2)] bit_below_width [OF assms(3,4)])

lemma IOC_size:
  assumes "0 \<le> n" "n < 2 ^ 8" "0 \<le> t" "t < 2 ^ 8" "0 \<le> s" "s < 2 ^ 14"
  shows "take_bit 14 (drop_bit 16 (IOC d t n s)) = s"
  by (rule bit_eqI)
    (auto simp: IOC_packed bit_simps
      dest: bit_below_width [OF assms(1,2)] bit_below_width [OF assms(3,4)]
        bit_below_width [OF assms(5,6)])

lemma IOC_dir:
  assumes "0 \<le> n" "n < 2 ^ 8" "0 \<le> t" "t < 2 ^ 8" "0 \<le> s" "s < 2 ^ 14"
  shows "drop_bit 30 (IOC d t n s) = d"
  by (rule bit_eqI)
    (auto simp: IOC_packed bit_simps
      dest: bit_below_width [OF assms(1,2)] bit_below_width [OF assms(3,4)]
        bit_below_width [OF assms(5,6)])

lemma IOC_range:
  assumes "0 \<le> n" "n < 2 ^ 8" "0 \<le> t" "t < 2 ^ 8" "0 \<le> s" "s < 2 ^ 14"
    "0 \<le> d" "d < 2 ^ 2"
  shows "0 \<le> IOC d t n s \<and> IOC d t n s < 2 ^ 32"
proof -
  have "take_bit 32 (IOC d t n s) = IOC d t n s"
    by (rule bit_eqI)
      (auto simp: IOC_packed bit_simps
        dest: bit_below_width [OF assms(1,2)] bit_below_width [OF assms(3,4)]
          bit_below_width [OF assms(5,6)] bit_below_width [OF assms(7,8)])
  then show ?thesis
    by (metis take_bit_nonnegative take_bit_int_less_exp)
qed

lemma ADD_WATCH_value: "COUNTER_ADD_WATCH_IOCTL = 0x40063E00"
  by (simp add: COUNTER_ADD_WATCH_IOCTL_def sizeof_CounterWatch IOC_packed IOC_WRITE_def
      del: sizeof.simps(3))

lemma ENABLE_value: "COUNTER_ENABLE_EVENTS_IOCTL = 0x3E01"
  by (simp add: COUNTER_ENABLE_EVENTS_IOCTL_def IOC_packed IOC_NONE_def)

lemma DISABLE_value: "COUNTER_DISABLE_EVENTS_IOCTL = 0x3E02"
  by (simp add: COUNTER_DISABLE_EVENTS_IOCTL_def IOC_packed IOC_NONE_def)

section \<open>The request codes\<close>

text \<open>
  C1. For fields within their widths (number 8 bits, type 8 bits, size 14 bits, direction
  2 bits) the code is \<open>request_nr | (request_type << 8) | (size << 16) | (direction << 30)\<close>:
  the number sits at bit 0, the type at bit 8, the size at bit 16 and the direction at bit
  30. The bit ranges do not overlap, so each field is read back from its range, and the
  code is an unsigned 32-bit value.
\<close>

theorem IOC_packs_fields:
  assumes "0 \<le> request_nr" "request_nr < 2 ^ IOC_NRBITS"
    and "0 \<le> request_type" "request_type < 2 ^ IOC_TYPEBITS"
    and "0 \<le> size'" "size' < 2 ^ IOC_SIZEBITS"
    and "0 \<le> direction" "direction < 2 ^ IOC_DIRBITS"
  shows "IOC direction request_type request_nr size' =
           request_nr OR push_bit 8 request_type OR push_bit 16 size' OR push_bit 30 direction
         \<and> take_bit 8 (IOC direction request_type request_nr size') = request_nr
         \<and> take_bit 8 (drop_bit 8 (IOC direction request_type request_nr size')) = request_type
         \<and> take_bit 14 (drop_bit 16 (IOC direction request_type request_nr size')) = size'
         \<and> drop_bit 30 (IOC direction request_type request_nr size') = direction
         \<and> 0 \<le> IOC direction request_type request_nr size'
         \<and> IOC direction request_type request_nr size' < 2 ^ 32"
proof -
  from assms have n: "0 \<le> request_nr" "request_nr < 2 ^ 8"
    and t: "0 \<le> request_type" "request_type < 2 ^ 8"
    and s: "0 \<le> size'" "size' < 2 ^ 14"
    and d: "0 \<le> direction" "direction < 2 ^ 2"
    by (simp_all add: IOC_consts)
  note r = IOC_range [OF n t s d, of]
  show ?thesis
    by (intro conjI IOC_packed IOC_nr [OF n] IOC_type [OF n t] IOC_size [OF n t s]
        IOC_dir [OF n t s] r [THEN conjunct1] r [THEN conjunct2])
qed

theorem IOC_packs_fields_witness:
  "IOC 1 0x3E 0 6 = 0x40063E00
   \<and> take_bit 8 (IOC 1 0x3E 0 6) = 0
   \<and> take_bit 8 (drop_bit 8 (IOC 1 0x3E 0 6)) = 0x3E
   \<and> take_bit 14 (drop_bit 16 (IOC 1 0x3E 0 6)) = 6
   \<and> drop_bit 30 (IOC 1 0x3E 0 6) = 1"
  using IOC_packs_fields [where request_nr = 0 and request_type = "0x3E" and size' = 6
      and direction = 1]
  by (simp add: IOC_consts)

text \<open>
  C2, as the code has it. The add-watch code has the write direction and its size field
  is the size of one Watch Descriptor, which is 6 bytes: the four one-byte fields of the
  Component Reference and two further one-byte fields.
\<close>

theorem add_watch_code_fields:
  "drop_bit 30 COUNTER_ADD_WATCH_IOCTL = IOC_WRITE
   \<and> take_bit 14 (drop_bit 16 COUNTER_ADD_WATCH_IOCTL) = int (sizeof (Structure CounterWatch_fields))
   \<and> sizeof (Structure CounterWatch_fields) = 6
   \<and> fields_total CounterComponent_fields = 4
   \<and> fields_total CounterWatch_fields = 4 + 2"
  by (simp add: ADD_WATCH_value sizeof_CounterWatch IOC_WRITE_def fields_total_CounterComponent
      fields_total_CounterWatch del: sizeof.simps(3))

text \<open>
  C2, as stated, fails: the payload size carried by the add-watch code is not 4 bytes.
\<close>

theorem add_watch_payload_not_4:
  "\<not> (drop_bit 30 COUNTER_ADD_WATCH_IOCTL = IOC_WRITE
      \<and> take_bit 14 (drop_bit 16 COUNTER_ADD_WATCH_IOCTL) = int (sizeof (Structure CounterWatch_fields))
      \<and> sizeof (Structure CounterWatch_fields) = 4)"
  by (simp add: sizeof_CounterWatch del: sizeof.simps(3))

text \<open>
  C3. The three codes the session uses are pairwise distinct. The generator is a function
  of its four arguments: equal inputs give equal codes.
\<close>

theorem codes_pairwise_distinct:
  "COUNTER_ADD_WATCH_IOCTL \<noteq> COUNTER_ENABLE_EVENTS_IOCTL
   \<and> COUNTER_ADD_WATCH_IOCTL \<noteq> COUNTER_DISABLE_EVENTS_IOCTL
   \<and> COUNTER_ENABLE_EVENTS_IOCTL \<noteq> COUNTER_DISABLE_EVENTS_IOCTL
   \<and> (\<forall>d t n s d' t' n' s'. (d, t, n, s) = (d', t', n', s') \<longrightarrow> IOC d t n s = IOC d' t' n' s')"
  by (simp add: ADD_WATCH_value ENABLE_value DISABLE_value)

theorem codes_pairwise_distinct_witness:
  "COUNTER_ADD_WATCH_IOCTL \<noteq> COUNTER_ENABLE_EVENTS_IOCTL
   \<and> COUNTER_ADD_WATCH_IOCTL \<noteq> COUNTER_DISABLE_EVENTS_IOCTL
   \<and> COUNTER_ENABLE_EVENTS_IOCTL \<noteq> COUNTER_DISABLE_EVENTS_IOCTL
   \<and> IOC IOC_NONE 0x3E 0x01 0 = IOC IOC_NONE 0x3E 0x01 0"
  using codes_pairwise_distinct by simp

section \<open>The structures as bytes\<close>

text \<open>
  C4. For every Watch Descriptor, its encoding has the fixed size of the structure, and
  decoding the encoding gives back a descriptor equal to the original in all fields.
\<close>

theorem CounterWatch_roundtrip:
  "length (encode_CounterWatch w) = sizeof (Structure CounterWatch_fields)
   \<and> CounterWatch_from_buffer_copy (encode_CounterWatch w) = Inr w"
  by (simp add: CounterWatch_from_buffer_copy_def from_buffer_copy_def sizeof_CounterWatch
      encode_CounterWatch_bytes decode_CounterWatch_bytes del: sizeof.simps(3))

section \<open>Facts about the session\<close>

lemma ioctl_fd_open: "ioctl dev code arg w = (r, w') \<Longrightarrow> fd_open w' = fd_open w"
  by (auto simp: ioctl_def kernel_effect_def log_def split: if_splits option.splits)

lemma ioctl_nonblocking: "ioctl dev code arg w = (r, w') \<Longrightarrow> nonblocking w' = nonblocking w"
  by (auto simp: ioctl_def kernel_effect_def log_def split: if_splits option.splits)

lemma ioctl_failed_enabled:
  "ioctl dev code arg w = (Inl e, w') \<Longrightarrow> events_enabled w' = events_enabled w"
  by (auto simp: ioctl_def log_def split: if_splits option.splits)

lemma ioctl_failed_trace:
  "ioctl dev code arg w = (Inl e, w') \<Longrightarrow> fd_open w \<Longrightarrow> trace w' = trace w @ [Sys_ioctl code arg]"
  by (auto simp: ioctl_def log_def split: if_splits option.splits)

lemma ioctl_add_watch_enabled:
  "ioctl dev COUNTER_ADD_WATCH_IOCTL arg w = (r, w') \<Longrightarrow> events_enabled w' = events_enabled w"
  by (auto simp: ioctl_def kernel_effect_def log_def ADD_WATCH_value ENABLE_value DISABLE_value
      split: if_splits option.splits)

lemma ioctl_enable_ok:
  "ioctl dev COUNTER_ENABLE_EVENTS_IOCTL arg w = (Inr u, w') \<Longrightarrow> events_enabled w'"
  by (auto simp: ioctl_def kernel_effect_def log_def split: if_splits option.splits)

lemma add_watches_fd_open: "add_watches dev ws w = (r, w') \<Longrightarrow> fd_open w' = fd_open w"
proof (induction ws arbitrary: w)
  case Nil
  then show ?case by simp
next
  case (Cons a ws)
  then show ?case
    by (auto split: prod.splits sum.splits dest: ioctl_fd_open)
qed

lemma add_watches_nonblocking: "add_watches dev ws w = (r, w') \<Longrightarrow> nonblocking w' = nonblocking w"
proof (induction ws arbitrary: w)
  case Nil
  then show ?case by simp
next
  case (Cons a ws)
  then show ?case
    by (auto split: prod.splits sum.splits dest: ioctl_nonblocking)
qed

lemma add_watches_enabled:
  "add_watches dev ws w = (r, w') \<Longrightarrow> events_enabled w' = events_enabled w"
proof (induction ws arbitrary: w)
  case Nil
  then show ?case by simp
next
  case (Cons a ws)
  then show ?case
    by (auto split: prod.splits sum.splits dest: ioctl_add_watch_enabled)
qed

lemma add_watches_first_failure:
  assumes "i < length ws"
      and "add_watches dev (take i ws) w = (Inr (), wi)"
      and "ioctl dev COUNTER_ADD_WATCH_IOCTL (Buffer_arg (encode_CounterWatch (ws ! i))) wi = (Inl e, w2)"
  shows "add_watches dev ws w = (Inl e, w2)"
  using assms
proof (induction ws arbitrary: i w)
  case Nil
  then show ?case by simp
next
  case (Cons a ws)
  show ?case
  proof (cases i)
    case 0
    with Cons.prems show ?thesis by simp
  next
    case (Suc j)
    with Cons.prems obtain w1 where
      step: "ioctl dev COUNTER_ADD_WATCH_IOCTL (Buffer_arg (encode_CounterWatch a)) w = (Inr (), w1)"
      and rest: "add_watches dev (take j ws) w1 = (Inr (), wi)"
      by (auto split: prod.splits sum.splits)
    from Cons.prems Suc have j: "j < length ws"
      and fail: "ioctl dev COUNTER_ADD_WATCH_IOCTL (Buffer_arg (encode_CounterWatch (ws ! j))) wi = (Inl e, w2)"
      by simp_all
    have "add_watches dev ws w1 = (Inl e, w2)"
      by (rule Cons.IH [OF j rest fail])
    with step show ?thesis by simp
  qed
qed

lemma file_open_ok:
  "file_open dev w = (Inr u, w0) \<Longrightarrow> fd_open w0 \<and> events_enabled w0 = events_enabled w"
  by (auto simp: file_open_def log_def split: option.splits)

lemma fcntl_ok:
  "fcntl_setfl_nonblock dev w = (Inr u, w1) \<Longrightarrow>
     fd_open w1 \<and> nonblocking w1 \<and> events_enabled w1 = events_enabled w"
  by (auto simp: fcntl_setfl_nonblock_def log_def split: option.splits if_splits)

lemma with_exit_file:
  assumes "fd_open w"
  shows "with_exit_raising dev e [File_exit] w =
    (case close_result dev of None \<Rightarrow> e | Some c \<Rightarrow> OSError c, (log Sys_close w)\<lparr>fd_open := False\<rparr>)"
  using assms
  by (simp add: with_exit_raising_def run_exit_callback_def file_close_def split: option.splits)

lemma subscribe_events_raises:
  assumes opened: "file_open dev w = (Inr (), w0)"
    and nonblock: "fcntl_setfl_nonblock dev w0 = (Inr (), w1)"
    and body: "add_watches dev watches w1 = (Inl e, w2) \<or>
      (add_watches dev watches w1 = (Inr (), wi) \<and>
       ioctl dev COUNTER_ENABLE_EVENTS_IOCTL (Int_arg 0) wi = (Inl e, w2))"
    and "fd_open w2"
  shows "subscribe_events dev watches w =
    (Inl (case close_result dev of None \<Rightarrow> e | Some c \<Rightarrow> OSError c),
     (log Sys_close w2)\<lparr>fd_open := False\<rparr>)"
  using assms
  by (auto simp: subscribe_events_def with_exit_file)

lemma subscribe_events_ok:
  assumes "subscribe_events dev watches w = (Inr stack, w1)"
  shows "stack = [Callback_ioctl COUNTER_DISABLE_EVENTS_IOCTL, File_exit]
    \<and> fd_open w1 \<and> nonblocking w1 \<and> events_enabled w1"
proof -
  from assms obtain u0 w0 u1 wa u2 wb u3 where
    o: "file_open dev w = (Inr u0, w0)"
    and f: "fcntl_setfl_nonblock dev w0 = (Inr u1, wa)"
    and a: "add_watches dev watches wa = (Inr u2, wb)"
    and e: "ioctl dev COUNTER_ENABLE_EVENTS_IOCTL (Int_arg 0) wb = (Inr u3, w1)"
    and s: "stack = [Callback_ioctl COUNTER_DISABLE_EVENTS_IOCTL, File_exit]"
    by (auto simp: subscribe_events_def Let_def with_exit_raising_def
        split: prod.splits sum.splits)
  from fcntl_ok [OF f] have "fd_open wa" "nonblocking wa" by simp_all
  with a have "fd_open wb" "nonblocking wb"
    using add_watches_fd_open add_watches_nonblocking by blast+
  with e have "fd_open w1" "nonblocking w1"
    using ioctl_fd_open ioctl_nonblocking by blast+
  with s ioctl_enable_ok [OF e] show ?thesis by simp
qed

lemma close_session:
  assumes "fd_open wa"
  shows "ExitStack_close dev [Callback_ioctl COUNTER_DISABLE_EVENTS_IOCTL, File_exit] wa =
    (case close_result dev of
       Some c \<Rightarrow> Inl (OSError c)
     | None \<Rightarrow> (case ioctl_result dev wa COUNTER_DISABLE_EVENTS_IOCTL (Int_arg 0) of
          Some e \<Rightarrow> Inl (OSError e) | None \<Rightarrow> Inr ()),
     [],
     (log Sys_close
       (case ioctl_result dev wa COUNTER_DISABLE_EVENTS_IOCTL (Int_arg 0) of
          Some e \<Rightarrow> log (Sys_ioctl COUNTER_DISABLE_EVENTS_IOCTL (Int_arg 0)) wa
        | None \<Rightarrow> kernel_effect COUNTER_DISABLE_EVENTS_IOCTL
            (log (Sys_ioctl COUNTER_DISABLE_EVENTS_IOCTL (Int_arg 0)) wa)))\<lparr>fd_open := False\<rparr>)"
  using assms
  by (simp add: ExitStack_close_def run_exit_callback_def ioctl_def file_close_def log_def
      kernel_effect_def split: option.splits)

subsection \<open>The byte stream through the buffer\<close>

text \<open>
  The bytes in the buffer followed by the bytes the kernel holds are the stream the file
  object reads. A read that returns bytes returns a prefix of that stream and leaves the
  rest of it, in order, in the buffer and the kernel.
\<close>

lemma raw_read_data:
  assumes "raw_read dev k w = Some (Inr (Some data), w')"
  shows "rx w = data @ rx w' \<and> readahead w' = readahead w \<and> length data \<le> k"
  using assms
  by (auto simp: raw_read_def log_def split: option.splits if_splits)

lemma raw_read_would_block:
  assumes "raw_read dev k w = Some (Inr None, w')"
  shows "rx w' = rx w \<and> readahead w' = readahead w"
  using assms
  by (auto simp: raw_read_def log_def split: option.splits if_splits)

lemma fill_loop_stream:
  assumes "fill_loop dev remaining read_end out w = Some (Inr (Some bs), w')"
    and "readahead w = []"
  shows "out @ rx w = bs @ readahead w' @ rx w' \<and> length bs \<le> length out + remaining"
  using assms
proof (induction dev remaining read_end out w rule: fill_loop.induct)
  case (1 dev remaining read_end out w)
  show ?case
  proof (cases "remaining > 0 \<and> read_end < buffer_size dev")
    case False
    with "1.prems" show ?thesis
      by (simp add: fill_loop.simps)
  next
    case True
    note cond = this
    show ?thesis
    proof (cases "raw_read dev (buffer_size dev - read_end) w")
      case None
      with cond "1.prems" show ?thesis
        by (simp add: fill_loop.simps)
    next
      case (Some p)
      obtain r w1 where p: "p = (r, w1)" by (cases p)
      show ?thesis
      proof (cases r)
        case (Inl e)
        with cond Some p "1.prems" show ?thesis
          by (simp add: fill_loop.simps)
      next
        case (Inr d)
        show ?thesis
        proof (cases d)
          case None
          with cond Some p Inr "1.prems" raw_read_would_block [of dev _ w w1]
          show ?thesis
            by (auto simp: fill_loop.simps split: if_splits)
        next
          case (Some data)
          with \<open>raw_read dev (buffer_size dev - read_end) w = Some p\<close> p Inr
          have rr: "raw_read dev (buffer_size dev - read_end) w = Some (Inr (Some data), w1)"
            by simp
          from raw_read_data [OF rr] "1.prems"(2)
          have st: "rx w = data @ rx w1" "readahead w1 = []" by simp_all
          show ?thesis
          proof (cases "data = []")
            case True
            with cond rr st "1.prems" show ?thesis
              by (simp add: fill_loop.simps)
          next
            case False
            note nonempty = this
            show ?thesis
            proof (cases "remaining > length data")
              case True
              with cond rr nonempty "1.prems"(1)
              have rec: "fill_loop dev (remaining - length data) (read_end + length data)
                  (out @ data) w1 = Some (Inr (Some bs), w')"
                by (simp add: fill_loop.simps)
              from "1.IH" [OF cond rr refl refl refl nonempty True rec st(2)]
              have "(out @ data) @ rx w1 = bs @ readahead w' @ rx w'
                \<and> length bs \<le> length (out @ data) + (remaining - length data)"
                by simp
              with st True show ?thesis by simp
            next
              case False
              with cond rr nonempty st "1.prems" show ?thesis
                by (auto simp: fill_loop.simps)
            qed
          qed
        qed
      qed
    qed
  qed
qed

lemma read_direct_stream:
  assumes "read_direct dev remaining out w = Some (Inr (Some bs), w')"
    and "readahead w = []"
  shows "out @ rx w = bs @ readahead w' @ rx w' \<and> length bs \<le> length out + remaining"
  using assms
proof (induction dev remaining out w rule: read_direct.induct)
  case (1 dev remaining out w)
  let ?r = "remaining div buffer_size dev * buffer_size dev"
  show ?case
  proof (cases "remaining > 0 \<and> ?r \<noteq> 0")
    case False
    with "1.prems" have "fill_loop dev remaining 0 out w = Some (Inr (Some bs), w')"
      by (auto simp: read_direct.simps [of dev remaining] Let_def)
    from fill_loop_stream [OF this "1.prems"(2)] show ?thesis .
  next
    case True
    note cond = this
    show ?thesis
    proof (cases "raw_read dev ?r w")
      case None
      with cond "1.prems" show ?thesis
        by (simp add: read_direct.simps [of dev remaining] Let_def)
    next
      case (Some p)
      obtain r w1 where p: "p = (r, w1)" by (cases p)
      show ?thesis
      proof (cases r)
        case (Inl e)
        with cond Some p "1.prems" show ?thesis
          by (simp add: read_direct.simps [of dev remaining] Let_def)
      next
        case (Inr d)
        show ?thesis
        proof (cases d)
          case None
          with cond Some p Inr "1.prems" raw_read_would_block [of dev _ w w1]
          show ?thesis
            by (auto simp: read_direct.simps [of dev remaining] Let_def split: if_splits)
        next
          case (Some data)
          with \<open>raw_read dev ?r w = Some p\<close> p Inr
          have rr: "raw_read dev ?r w = Some (Inr (Some data), w1)"
            by simp
          from raw_read_data [OF rr] "1.prems"(2)
          have st: "rx w = data @ rx w1" "readahead w1 = []" "length data \<le> ?r"
            by simp_all
          have "?r \<le> remaining"
            by simp
          with st(3) have le: "length data \<le> remaining"
            by (rule order_trans)
          show ?thesis
          proof (cases "data = []")
            case True
            with cond rr st "1.prems" show ?thesis
              by (simp add: read_direct.simps [of dev remaining] Let_def)
          next
            case False
            with cond rr "1.prems"(1)
            have rec: "read_direct dev (remaining - length data) (out @ data) w1 =
                Some (Inr (Some bs), w')"
              by (simp add: read_direct.simps [of dev remaining] Let_def)
            from "1.IH" [OF refl cond rr refl refl refl False rec st(2)]
            have "(out @ data) @ rx w1 = bs @ readahead w' @ rx w'
                \<and> length bs \<le> length (out @ data) + (remaining - length data)"
              by simp
            with st(1) le show ?thesis by simp
          qed
        qed
      qed
    qed
  qed
qed

lemma file_read_stream:
  assumes "file_read dev n w = Some (Inr (Some bs), w')"
  shows "readahead w @ rx w = bs @ readahead w' @ rx w' \<and> length bs \<le> n"
proof (cases "n \<le> length (readahead w)")
  case True
  with assms show ?thesis
    by (auto simp: file_read_def split: if_splits)
next
  case False
  with assms have "read_direct dev (n - length (readahead w)) (readahead w)
      (w\<lparr>readahead := []\<rparr>) = Some (Inr (Some bs), w')"
    by (auto simp: file_read_def split: if_splits)
  from read_direct_stream [OF this] False show ?thesis
    by simp
qed

lemma read_event_success:
  assumes "read_event dev w = Some (Inr (Some ev), w')"
  shows "24 \<le> length (readahead w @ rx w)
    \<and> ev = decode_CounterEvent (take 24 (readahead w @ rx w))
    \<and> readahead w' @ rx w' = drop 24 (readahead w @ rx w)"
proof -
  from assms obtain bs where
    fr: "file_read dev (sizeof (Structure CounterEvent_fields)) w = Some (Inr (Some bs), w')"
    and dec: "CounterEvent_from_buffer_copy bs = Inr ev"
    by (auto simp: read_event_def split: option.splits sum.splits prod.splits)
  from dec have len: "24 \<le> length bs" and ev: "ev = decode_CounterEvent (take 24 bs)"
    by (auto simp: CounterEvent_from_buffer_copy_def from_buffer_copy_def sizeof_CounterEvent
        simp del: sizeof.simps(3) split: if_splits)
  from file_read_stream [OF fr]
  have st: "readahead w @ rx w = bs @ readahead w' @ rx w'" and "length bs \<le> 24"
    by (simp_all add: sizeof_CounterEvent del: sizeof.simps(3))
  with len have "length bs = 24" by simp
  with st ev show ?thesis by simp
qed

subsection \<open>The scenarios\<close>

lemmas scenario_defs = world0_def accepting_def rejecting_underflow_def failing_disable_def
  rejecting_underflow_failing_close_def failing_disable_failing_close_def
  subscribed_def overflow_def underflow_def OVERFLOW_def UNDERFLOW_def
lemmas step_defs = file_open_def fcntl_setfl_nonblock_def ioctl_def kernel_effect_def log_def
  file_close_def run_exit_callback_def
lemmas code_values = ADD_WATCH_value ENABLE_value DISABLE_value

lemma subscribe_accepting:
  "subscribe_events accepting [overflow, underflow] world0 =
     (Inr [Callback_ioctl COUNTER_DISABLE_EVENTS_IOCTL, File_exit], subscribed)"
  by (simp add: subscribe_events_def scenario_defs step_defs code_values encode_CounterWatch_bytes)

lemma subscribe_failing_disable:
  "subscribe_events failing_disable [overflow, underflow] world0 =
     (Inr [Callback_ioctl COUNTER_DISABLE_EVENTS_IOCTL, File_exit], subscribed)"
  by (simp add: subscribe_events_def scenario_defs step_defs code_values encode_CounterWatch_bytes)

lemma subscribe_failing_disable_failing_close:
  "subscribe_events failing_disable_failing_close [overflow, underflow] world0 =
     (Inr [Callback_ioctl COUNTER_DISABLE_EVENTS_IOCTL, File_exit], subscribed)"
  by (simp add: subscribe_events_def scenario_defs step_defs code_values encode_CounterWatch_bytes)

lemma length_overflow_event_bytes: "length overflow_event_bytes = 24"
  by (simp add: overflow_event_bytes_def)

lemma overflow_event_bytes_nonempty: "overflow_event_bytes \<noteq> []"
  by (simp add: overflow_event_bytes_def)

lemma decode_overflow_event':
  "decode_CounterEvent overflow_event_bytes = overflow_event"
  by (simp add: decode_overflow_event overflow_event_def)

lemma read_two_events:
  "read_event accepting two_events = Some (Inr (Some overflow_event), after_first_read)"
  by (simp add: read_event_def file_read_def read_direct.simps fill_loop.simps raw_read_def
      two_events_def after_first_read_def accepting_def log_def sizeof_CounterEvent
      CounterEvent_from_buffer_copy_def from_buffer_copy_def length_overflow_event_bytes
      overflow_event_bytes_nonempty decode_overflow_event' Let_def del: sizeof.simps(3))

section \<open>Opening a session\<close>

text \<open>
  C5, as the code has it. Let the device be opened and switched to non-blocking mode, and
  let events be disabled beforehand. If the add-watch request for the watch at index \<open>i\<close>
  fails with \<open>e\<close> after every earlier one was accepted, or every add-watch request was
  accepted and the enable-events request fails with \<open>e\<close>, then \<^verbatim>\<open>subscribe_events\<close>
  raises, the file is closed, events are not enabled, and nothing but the close follows the
  failed request: no later watch is requested and nothing is enabled. The exception raised
  is \<open>e\<close>, the first failure, when the close succeeds; when the close fails too, it is the
  error of the close.
\<close>

theorem subscribe_events_failure:
  assumes opened: "file_open dev w = (Inr (), w0)"
    and nonblock: "fcntl_setfl_nonblock dev w0 = (Inr (), w1)"
    and fails:
      "(i < length watches \<and> add_watches dev (take i watches) w1 = (Inr (), wi) \<and>
        ioctl dev COUNTER_ADD_WATCH_IOCTL (Buffer_arg (encode_CounterWatch (watches ! i))) wi
          = (Inl e, w2))
       \<or> (add_watches dev watches w1 = (Inr (), wi) \<and>
          ioctl dev COUNTER_ENABLE_EVENTS_IOCTL (Int_arg 0) wi = (Inl e, w2))"
    and idle: "\<not> events_enabled w"
  shows "fst (subscribe_events dev watches w) =
        Inl (case close_result dev of None \<Rightarrow> e | Some c \<Rightarrow> OSError c)
    \<and> \<not> fd_open (snd (subscribe_events dev watches w))
    \<and> \<not> events_enabled (snd (subscribe_events dev watches w))
    \<and> trace (snd (subscribe_events dev watches w)) = trace w2 @ [Sys_close]"
proof -
  from opened nonblock idle have w1: "fd_open w1" "\<not> events_enabled w1"
    using file_open_ok [OF opened] fcntl_ok [OF nonblock] by simp_all
  from fails have body: "add_watches dev watches w1 = (Inl e, w2) \<or>
      (add_watches dev watches w1 = (Inr (), wi) \<and>
       ioctl dev COUNTER_ENABLE_EVENTS_IOCTL (Int_arg 0) wi = (Inl e, w2))"
    by (auto intro: add_watches_first_failure)
  have w2: "fd_open w2 \<and> \<not> events_enabled w2"
  proof (rule disjE [OF fails])
    assume a: "i < length watches \<and> add_watches dev (take i watches) w1 = (Inr (), wi) \<and>
        ioctl dev COUNTER_ADD_WATCH_IOCTL (Buffer_arg (encode_CounterWatch (watches ! i))) wi
          = (Inl e, w2)"
    then have "fd_open wi" "\<not> events_enabled wi"
      using w1 add_watches_fd_open add_watches_enabled by blast+
    with a show ?thesis
      using ioctl_fd_open ioctl_failed_enabled by blast
  next
    assume a: "add_watches dev watches w1 = (Inr (), wi) \<and>
          ioctl dev COUNTER_ENABLE_EVENTS_IOCTL (Int_arg 0) wi = (Inl e, w2)"
    then have "fd_open wi" "\<not> events_enabled wi"
      using w1 add_watches_fd_open add_watches_enabled by blast+
    with a show ?thesis
      using ioctl_fd_open ioctl_failed_enabled by blast
  qed
  have "subscribe_events dev watches w =
    (Inl (case close_result dev of None \<Rightarrow> e | Some c \<Rightarrow> OSError c),
     (log Sys_close w2)\<lparr>fd_open := False\<rparr>)"
    using opened nonblock body w2 by (rule subscribe_events_raises [OF _ _ _ conjunct1])
  with w2 show ?thesis
    by (simp add: log_def)
qed

theorem subscribe_events_failure_witness:
  "fst (subscribe_events rejecting_underflow [overflow, underflow] world0) = Inl (OSError 22)
   \<and> \<not> fd_open (snd (subscribe_events rejecting_underflow [overflow, underflow] world0))
   \<and> \<not> events_enabled (snd (subscribe_events rejecting_underflow [overflow, underflow] world0))
   \<and> trace (snd (subscribe_events rejecting_underflow [overflow, underflow] world0)) =
       [Sys_open, Sys_fcntl_nonblock,
        Sys_ioctl COUNTER_ADD_WATCH_IOCTL (Buffer_arg (encode_CounterWatch overflow)),
        Sys_ioctl COUNTER_ADD_WATCH_IOCTL (Buffer_arg (encode_CounterWatch underflow)),
        Sys_close]"
proof -
  let ?dev = rejecting_underflow
  let ?w0 = "snd (file_open ?dev world0)"
  let ?w1 = "snd (fcntl_setfl_nonblock ?dev ?w0)"
  let ?wi = "snd (add_watches ?dev (take 1 [overflow, underflow]) ?w1)"
  let ?w2 = "snd (ioctl ?dev COUNTER_ADD_WATCH_IOCTL
     (Buffer_arg (encode_CounterWatch ([overflow, underflow] ! 1))) ?wi)"
  have h1: "file_open ?dev world0 = (Inr (), ?w0)"
    by (simp add: scenario_defs step_defs)
  have h2: "fcntl_setfl_nonblock ?dev ?w0 = (Inr (), ?w1)"
    by (simp add: scenario_defs step_defs)
  have h3: "(1 < length [overflow, underflow]
      \<and> add_watches ?dev (take 1 [overflow, underflow]) ?w1 = (Inr (), ?wi)
      \<and> ioctl ?dev COUNTER_ADD_WATCH_IOCTL
           (Buffer_arg (encode_CounterWatch ([overflow, underflow] ! 1))) ?wi = (Inl (OSError 22), ?w2))
     \<or> (add_watches ?dev [overflow, underflow] ?w1 = (Inr (), ?wi)
      \<and> ioctl ?dev COUNTER_ENABLE_EVENTS_IOCTL (Int_arg 0) ?wi = (Inl (OSError 22), ?w2))"
    by (simp add: scenario_defs step_defs code_values encode_CounterWatch_bytes)
  have h4: "\<not> events_enabled world0"
    by (simp add: world0_def)
  have t: "trace ?w2 = [Sys_open, Sys_fcntl_nonblock,
        Sys_ioctl COUNTER_ADD_WATCH_IOCTL (Buffer_arg (encode_CounterWatch overflow)),
        Sys_ioctl COUNTER_ADD_WATCH_IOCTL (Buffer_arg (encode_CounterWatch underflow))]"
    by (simp add: scenario_defs step_defs code_values encode_CounterWatch_bytes)
  have c: "close_result ?dev = None"
    by (simp add: rejecting_underflow_def)
  from subscribe_events_failure [OF h1 h2 h3 h4] t c show ?thesis
    by simp
qed

text \<open>
  C5, as stated, fails where closing the file fails as well: the kernel rejects the
  underflow watch with errno 22 and the close with errno 9, and \<^verbatim>\<open>subscribe_events\<close>
  raises the error of the close, not the first failure.
\<close>

theorem subscribe_events_close_error_wins:
  "ioctl_result rejecting_underflow_failing_close world0 COUNTER_ADD_WATCH_IOCTL
      (Buffer_arg (encode_CounterWatch overflow)) = None
   \<and> ioctl_result rejecting_underflow_failing_close world0 COUNTER_ADD_WATCH_IOCTL
      (Buffer_arg (encode_CounterWatch underflow)) = Some 22
   \<and> close_result rejecting_underflow_failing_close = Some 9
   \<and> fst (subscribe_events rejecting_underflow_failing_close [overflow, underflow] world0) =
       Inl (OSError 9)
   \<and> fst (subscribe_events rejecting_underflow_failing_close [overflow, underflow] world0) \<noteq>
       Inl (OSError 22)
   \<and> trace (snd (subscribe_events rejecting_underflow_failing_close [overflow, underflow] world0)) =
       [Sys_open, Sys_fcntl_nonblock,
        Sys_ioctl COUNTER_ADD_WATCH_IOCTL (Buffer_arg (encode_CounterWatch overflow)),
        Sys_ioctl COUNTER_ADD_WATCH_IOCTL (Buffer_arg (encode_CounterWatch underflow)),
        Sys_close]"
  by (simp add: subscribe_events_def with_exit_raising_def scenario_defs step_defs code_values
      encode_CounterWatch_bytes)

section \<open>Closing a session\<close>

text \<open>
  C6. On a session that \<^verbatim>\<open>subscribe_events\<close> returned and whose file is still open, the
  unsubscribe function issues exactly one disable-events request and then closes the file,
  in that order. Calling it a second time does nothing: no request is made, the state is
  unchanged and no exception is raised.
\<close>

theorem unsubscribe_idempotent:
  assumes "subscribe_events dev watches w = (Inr stack, w1)"
    and "fd_open wa"
  shows "trace (snd (snd (ExitStack_close dev stack wa))) =
        trace wa @ [Sys_ioctl COUNTER_DISABLE_EVENTS_IOCTL (Int_arg 0), Sys_close]
    \<and> \<not> fd_open (snd (snd (ExitStack_close dev stack wa)))
    \<and> ExitStack_close dev (fst (snd (ExitStack_close dev stack wa)))
          (snd (snd (ExitStack_close dev stack wa)))
        = (Inr (), fst (snd (ExitStack_close dev stack wa)), snd (snd (ExitStack_close dev stack wa)))"
proof -
  from subscribe_events_ok [OF assms(1)]
  have s: "stack = [Callback_ioctl COUNTER_DISABLE_EVENTS_IOCTL, File_exit]" by simp
  show ?thesis
    unfolding s close_session [OF assms(2)]
    by (simp add: ExitStack_close_def log_def kernel_effect_def split: option.splits)
qed

theorem unsubscribe_idempotent_witness:
  "subscribe_events accepting [overflow, underflow] world0 =
     (Inr [Callback_ioctl COUNTER_DISABLE_EVENTS_IOCTL, File_exit], subscribed)
   \<and> fd_open subscribed
   \<and> trace (snd (snd (ExitStack_close accepting
        [Callback_ioctl COUNTER_DISABLE_EVENTS_IOCTL, File_exit] subscribed))) =
      trace subscribed @ [Sys_ioctl COUNTER_DISABLE_EVENTS_IOCTL (Int_arg 0), Sys_close]
   \<and> \<not> fd_open (snd (snd (ExitStack_close accepting
        [Callback_ioctl COUNTER_DISABLE_EVENTS_IOCTL, File_exit] subscribed)))
   \<and> ExitStack_close accepting
        (fst (snd (ExitStack_close accepting
           [Callback_ioctl COUNTER_DISABLE_EVENTS_IOCTL, File_exit] subscribed)))
        (snd (snd (ExitStack_close accepting
           [Callback_ioctl COUNTER_DISABLE_EVENTS_IOCTL, File_exit] subscribed)))
      = (Inr (),
         fst (snd (ExitStack_close accepting
           [Callback_ioctl COUNTER_DISABLE_EVENTS_IOCTL, File_exit] subscribed)),
         snd (snd (ExitStack_close accepting
           [Callback_ioctl COUNTER_DISABLE_EVENTS_IOCTL, File_exit] subscribed)))"
proof -
  have o: "fd_open subscribed" by (simp add: subscribed_def)
  from unsubscribe_idempotent [OF subscribe_accepting o] subscribe_accepting o
  show ?thesis by blast
qed

text \<open>
  C7, as the code has it. If the disable-events request made by the unsubscribe function
  fails with errno \<open>e\<close>, the file is closed all the same, after the failed request, and
  the call raises: the \<^verbatim>\<open>OSError\<close> of the request when the close succeeds, the
  \<^verbatim>\<open>OSError\<close> of the close when the close fails too.
\<close>

theorem unsubscribe_disable_fails:
  assumes "subscribe_events dev watches w = (Inr stack, w1)"
    and "fd_open wa"
    and "ioctl_result dev wa COUNTER_DISABLE_EVENTS_IOCTL (Int_arg 0) = Some e"
  shows "fst (ExitStack_close dev stack wa) =
        Inl (OSError (case close_result dev of None \<Rightarrow> e | Some c \<Rightarrow> c))
    \<and> \<not> fd_open (snd (snd (ExitStack_close dev stack wa)))
    \<and> trace (snd (snd (ExitStack_close dev stack wa))) =
        trace wa @ [Sys_ioctl COUNTER_DISABLE_EVENTS_IOCTL (Int_arg 0), Sys_close]"
proof -
  from subscribe_events_ok [OF assms(1)]
  have s: "stack = [Callback_ioctl COUNTER_DISABLE_EVENTS_IOCTL, File_exit]" by simp
  show ?thesis
    unfolding s close_session [OF assms(2)]
    by (simp add: assms(3) log_def split: option.splits)
qed

theorem unsubscribe_disable_fails_witness:
  "ioctl_result failing_disable subscribed COUNTER_DISABLE_EVENTS_IOCTL (Int_arg 0) = Some 5
   \<and> fst (ExitStack_close failing_disable
        [Callback_ioctl COUNTER_DISABLE_EVENTS_IOCTL, File_exit] subscribed) = Inl (OSError 5)
   \<and> \<not> fd_open (snd (snd (ExitStack_close failing_disable
        [Callback_ioctl COUNTER_DISABLE_EVENTS_IOCTL, File_exit] subscribed)))
   \<and> trace (snd (snd (ExitStack_close failing_disable
        [Callback_ioctl COUNTER_DISABLE_EVENTS_IOCTL, File_exit] subscribed))) =
      trace subscribed @ [Sys_ioctl COUNTER_DISABLE_EVENTS_IOCTL (Int_arg 0), Sys_close]"
proof -
  have o: "fd_open subscribed" by (simp add: subscribed_def)
  have d: "ioctl_result failing_disable subscribed COUNTER_DISABLE_EVENTS_IOCTL (Int_arg 0) = Some 5"
    by (simp add: failing_disable_def)
  have c: "close_result failing_disable = None"
    by (simp add: failing_disable_def)
  from unsubscribe_disable_fails [OF subscribe_failing_disable o d] d c
  show ?thesis by simp
qed

text \<open>
  C7, as stated, fails where closing the file fails as well: the disable-events request
  fails with errno 5 and the close with errno 9, and the caller gets the error of the
  close, not the failure of the disable-events request.
\<close>

theorem unsubscribe_close_error_wins:
  "subscribe_events failing_disable_failing_close [overflow, underflow] world0 =
     (Inr [Callback_ioctl COUNTER_DISABLE_EVENTS_IOCTL, File_exit], subscribed)
   \<and> ioctl_result failing_disable_failing_close subscribed COUNTER_DISABLE_EVENTS_IOCTL (Int_arg 0)
       = Some 5
   \<and> close_result failing_disable_failing_close = Some 9
   \<and> fst (ExitStack_close failing_disable_failing_close
        [Callback_ioctl COUNTER_DISABLE_EVENTS_IOCTL, File_exit] subscribed) = Inl (OSError 9)
   \<and> fst (ExitStack_close failing_disable_failing_close
        [Callback_ioctl COUNTER_DISABLE_EVENTS_IOCTL, File_exit] subscribed) \<noteq> Inl (OSError 5)"
proof -
  have o: "fd_open subscribed" by (simp add: subscribed_def)
  have d: "ioctl_result failing_disable_failing_close subscribed COUNTER_DISABLE_EVENTS_IOCTL
      (Int_arg 0) = Some 5"
    and c: "close_result failing_disable_failing_close = Some 9"
    by (simp_all add: failing_disable_failing_close_def)
  have r: "fst (ExitStack_close failing_disable_failing_close
        [Callback_ioctl COUNTER_DISABLE_EVENTS_IOCTL, File_exit] subscribed) = Inl (OSError 9)"
    by (simp add: close_session [OF o] c)
  from subscribe_failing_disable_failing_close d c r show ?thesis
    by simp
qed

section \<open>Reading events\<close>

text \<open>
  C8. A byte sequence shorter than one Event Record is never decoded: the decoder raises
  \<^verbatim>\<open>ValueError\<close>, and so does \<^verbatim>\<open>read_event\<close> when the read returns such a sequence. No
  record, partial or not, is returned.
\<close>

theorem short_buffer_raises:
  assumes "length source < sizeof (Structure CounterEvent_fields)"
  shows "CounterEvent_from_buffer_copy source = Inl ValueError
    \<and> (\<forall>dev w w'. file_read dev (sizeof (Structure CounterEvent_fields)) w = Some (Inr (Some source), w')
          \<longrightarrow> read_event dev w = Some (Inl ValueError, w'))"
  using assms
  by (simp add: CounterEvent_from_buffer_copy_def from_buffer_copy_def read_event_def)

theorem short_buffer_raises_witness:
  "length [1, 2, 3 :: byte] < sizeof (Structure CounterEvent_fields)
   \<and> CounterEvent_from_buffer_copy [1, 2, 3] = Inl ValueError
   \<and> file_read accepting (sizeof (Structure CounterEvent_fields)) (subscribed\<lparr>rx := [1, 2, 3]\<rparr>) =
       Some (Inr (Some [1, 2, 3]), log (Sys_read 4093) (log (Sys_read 4096) subscribed))
   \<and> read_event accepting (subscribed\<lparr>rx := [1, 2, 3]\<rparr>) =
       Some (Inl ValueError, log (Sys_read 4093) (log (Sys_read 4096) subscribed))"
proof -
  have l: "length [1, 2, 3 :: byte] < sizeof (Structure CounterEvent_fields)"
    by (simp add: sizeof_CounterEvent del: sizeof.simps(3))
  have r: "file_read accepting (sizeof (Structure CounterEvent_fields)) (subscribed\<lparr>rx := [1, 2, 3]\<rparr>) =
       Some (Inr (Some [1, 2, 3]), log (Sys_read 4093) (log (Sys_read 4096) subscribed))"
    by (simp add: file_read_def read_direct.simps fill_loop.simps raw_read_def subscribed_def
        accepting_def log_def sizeof_CounterEvent Let_def del: sizeof.simps(3))
  from short_buffer_raises [OF l] l r show ?thesis by blast
qed




text \<open>
  C10, as the code has it. The size of an Event Record is 24 bytes: the fields take
  8 + 8 + 6 + 1 = 23 bytes, the alignment of the structure is 8, and one padding byte
  follows the status at offset 22. \<^verbatim>\<open>read_event\<close> asks the file object for that many
  bytes, and whenever it returns a record, the record is decoded from the next 24 bytes of
  the stream (the buffer of the file object, then the kernel's queue) and exactly those 24
  bytes have left the stream. How many bytes a call takes from the device is another
  matter: the file object reads ahead.
\<close>

theorem CounterEvent_size:
  "sizeof (Structure CounterEvent_fields) = 24
   \<and> map (\<lambda>f. sizeof (snd f)) CounterEvent_fields = [8, 8, 6, 1]
   \<and> fields_total CounterEvent_fields = 23
   \<and> alignment (Structure CounterEvent_fields) = 8
   \<and> round_up 23 8 = 23 + 1
   \<and> map (offsetof CounterEvent_fields) [''timestamp'', ''value'', ''watch'', ''status''] =
       [Some 0, Some 8, Some 16, Some 22]
   \<and> (\<forall>dev w ev w'. read_event dev w = Some (Inr (Some ev), w') \<longrightarrow>
        24 \<le> length (readahead w @ rx w)
        \<and> ev = decode_CounterEvent (take 24 (readahead w @ rx w))
        \<and> readahead w' @ rx w' = drop 24 (readahead w @ rx w))"
proof -
  have sizes: "map (\<lambda>f. sizeof (snd f)) CounterEvent_fields = [8, 8, 6, 1]"
    by (simp add: CounterEvent_fields_def sizeof_CounterWatch del: sizeof.simps(3))
  have pad: "round_up 23 8 = 23 + 1"
    by (simp add: round_up_def)
  have reads: "\<forall>dev w ev w'. read_event dev w = Some (Inr (Some ev), w') \<longrightarrow>
        24 \<le> length (readahead w @ rx w)
        \<and> ev = decode_CounterEvent (take 24 (readahead w @ rx w))
        \<and> readahead w' @ rx w' = drop 24 (readahead w @ rx w)"
    using read_event_success by blast
  show ?thesis
    by (intro conjI sizeof_CounterEvent sizes fields_total_CounterEvent alignment_CounterEvent
        pad offsets_CounterEvent reads)
qed

theorem CounterEvent_size_witness:
  "read_event accepting two_events = Some (Inr (Some overflow_event), after_first_read)
   \<and> sizeof (Structure CounterEvent_fields) = 24
   \<and> 24 \<le> length (readahead two_events @ rx two_events)
   \<and> overflow_event = decode_CounterEvent (take 24 (readahead two_events @ rx two_events))
   \<and> readahead after_first_read @ rx after_first_read =
       drop 24 (readahead two_events @ rx two_events)"
proof -
  from CounterEvent_size have
    "\<forall>dev w ev w'. read_event dev w = Some (Inr (Some ev), w') \<longrightarrow>
        24 \<le> length (readahead w @ rx w)
        \<and> ev = decode_CounterEvent (take 24 (readahead w @ rx w))
        \<and> readahead w' @ rx w' = drop 24 (readahead w @ rx w)"
    and "sizeof (Structure CounterEvent_fields) = 24"
    by blast+
  with read_two_events show ?thesis
    by blast
qed

text \<open>
  C10, as stated, fails in its last part: with two records waiting in the kernel, one
  successful \<^verbatim>\<open>read_event\<close> takes all 48 bytes from the device, not 24. The second record
  stays in the buffer of the file object.
\<close>

theorem read_event_drains_device:
  "read_event accepting two_events = Some (Inr (Some overflow_event), after_first_read)
   \<and> length (rx two_events) = 48
   \<and> rx after_first_read = []
   \<and> length (rx two_events) \<noteq> length (rx after_first_read) + 24
   \<and> readahead after_first_read = overflow_event_bytes"
proof -
  have "length (rx two_events) = 48" "rx after_first_read = []"
    "readahead after_first_read = overflow_event_bytes"
    by (simp_all add: two_events_def after_first_read_def length_overflow_event_bytes)
  with read_two_events show ?thesis
    by simp
qed

end
